theory Spec2Isabelle
  imports Complex_Main "HOL-Library.AList"
begin

section \<open>The TTL cache of the weather dashboard (backend/services/cache_service.py)\<close>

text \<open>
  The cache is a Python dict from string keys to entries, guarded by one reentrant lock.
  Every method body runs inside the lock, so each call is one atomic transition of the
  store; the model is sequential and passes the store explicitly.

  Clock readings (\<open>time.time()\<close>) are parameters of the operations. They are finite
  doubles in the source; here they are real numbers and float addition, subtraction and
  comparison are the exact ones. The one float operation that can raise is kept: adding a
  Python int to a float first converts the int, and the conversion raises OverflowError
  for an int no double can hold. Where the value of a sum or a difference matters, the two
  operations that compute one are given a second time with the rounding of doubles as a
  parameter.
\<close>

subsection \<open>Python values and errors\<close>

datatype py_error = KeyError | OverflowError | TypeError

datatype pyval =
    PNone
  | PBool bool
  | PInt int
  | PFloat real
  | PStr string
  | PList "pyval list"
  | PDict "(string \<times> pyval) list"


text \<open>
  \<open>float + int\<close>: the int is converted to a double (round half to even), which raises
  OverflowError from \<open>2^1024 - 2^970\<close> on in magnitude; below that the sum is taken.
\<close>

definition float_add_int :: "real \<Rightarrow> int \<Rightarrow> py_error + real" where
  "float_add_int x n =
     (if \<bar>n\<bar> < 2 ^ 1024 - 2 ^ 970 then Inr (x + of_int n) else Inl OverflowError)"

text \<open>\<open>int(x)\<close> on a float truncates towards zero.\<close>

definition py_int :: "real \<Rightarrow> int" where
  "py_int x = (if x < 0 then \<lceil>x\<rceil> else \<lfloor>x\<rfloor>)"

subsection \<open>The dict\<close>

text \<open>
  A Python dict keeps its keys in insertion order and holds each key once. It is an
  association list here: assignment overwrites in place or appends, \<open>del\<close> and
  subscription raise KeyError on a missing key.
\<close>

record entry =
  val :: pyval
  expires_at :: real
  created_at :: real

type_synonym store = "(string \<times> entry) list"

definition dict_contains :: "store \<Rightarrow> string \<Rightarrow> bool" where
  "dict_contains d k = (map_of d k \<noteq> None)"

definition dict_getitem :: "store \<Rightarrow> string \<Rightarrow> py_error + entry" where
  "dict_getitem d k = (case map_of d k of None \<Rightarrow> Inl KeyError | Some e \<Rightarrow> Inr e)"

definition dict_setitem :: "store \<Rightarrow> string \<Rightarrow> entry \<Rightarrow> store" where
  "dict_setitem d k e = AList.update k e d"

definition dict_delitem :: "store \<Rightarrow> string \<Rightarrow> py_error + store" where
  "dict_delitem d k =
     (if dict_contains d k then Inr (AList.delete k d) else Inl KeyError)"

subsection \<open>CacheService\<close>

text \<open>\<open>__init__\<close>: the empty dict.\<close>

definition init :: store where
  "init = []"

text \<open>\<open>get(key)\<close> with the clock reading \<open>now\<close>; the result is the returned value and the store.\<close>

definition get :: "store \<Rightarrow> real \<Rightarrow> string \<Rightarrow> py_error + (pyval \<times> store)" where
  "get s now key =
     (if \<not> dict_contains s key then Inr (PNone, s)
      else case dict_getitem s key of
        Inl err \<Rightarrow> Inl err
      | Inr e \<Rightarrow>
          if now > expires_at e then
            (case dict_delitem s key of
               Inl err \<Rightarrow> Inl err
             | Inr s' \<Rightarrow> Inr (PNone, s'))
          else Inr (val e, s))"

text \<open>
  \<open>set(key, value, ttl)\<close> reads the clock twice: \<open>t1\<close> for \<open>expires_at\<close>, then \<open>t2\<close> for
  \<open>created_at\<close>.
\<close>

definition cache_set :: "store \<Rightarrow> real \<Rightarrow> real \<Rightarrow> string \<Rightarrow> pyval \<Rightarrow> int \<Rightarrow> py_error + store" where
  "cache_set s t1 t2 key v ttl =
     (case float_add_int t1 ttl of
        Inl err \<Rightarrow> Inl err
      | Inr expires \<Rightarrow>
          Inr (dict_setitem s key \<lparr>val = v, expires_at = expires, created_at = t2\<rparr>))"

text \<open>The call with \<open>ttl\<close> omitted takes the default of the signature, \<open>ttl: int = 900\<close>.\<close>

definition cache_set_default :: "store \<Rightarrow> real \<Rightarrow> real \<Rightarrow> string \<Rightarrow> pyval \<Rightarrow> py_error + store" where
  "cache_set_default s t1 t2 key v = cache_set s t1 t2 key v 900"

definition delete :: "store \<Rightarrow> string \<Rightarrow> py_error + (bool \<times> store)" where
  "delete s key =
     (if dict_contains s key then
        (case dict_delitem s key of
           Inl err \<Rightarrow> Inl err
         | Inr s' \<Rightarrow> Inr (True, s'))
      else Inr (False, s))"

definition clear :: "store \<Rightarrow> py_error + store" where
  "clear s = Inr []"

text \<open>The loop \<open>for key in expired_keys: del self._cache[key]\<close>.\<close>

fun del_keys :: "store \<Rightarrow> string list \<Rightarrow> py_error + store" where
  "del_keys s [] = Inr s"
| "del_keys s (k # ks) =
     (case dict_delitem s k of
        Inl err \<Rightarrow> Inl err
      | Inr s' \<Rightarrow> del_keys s' ks)"

definition cleanup_expired :: "store \<Rightarrow> real \<Rightarrow> py_error + (int \<times> store)" where
  "cleanup_expired s now =
     (let expired_keys = [key. (key, e) \<leftarrow> s, now > expires_at e]
      in case del_keys s expired_keys of
           Inl err \<Rightarrow> Inl err
         | Inr s' \<Rightarrow> Inr (int (length expired_keys), s'))"

record stats =
  total_entries :: int
  active_entries :: int
  expired_entries :: int
  cache_keys :: "string list"

definition get_stats :: "store \<Rightarrow> real \<Rightarrow> py_error + (stats \<times> store)" where
  "get_stats s now =
     (let total = int (length s);
          expired = sum_list [1. e \<leftarrow> map snd s, now > expires_at e]
      in Inr (\<lparr>total_entries = total,
                active_entries = total - expired,
                expired_entries = expired,
                cache_keys = map fst s\<rparr>, s))"

text \<open>\<open>has_key\<close> is \<open>self.get(key) is not None\<close>, eviction included.\<close>

definition has_key :: "store \<Rightarrow> real \<Rightarrow> string \<Rightarrow> py_error + (bool \<times> store)" where
  "has_key s now key =
     (case get s now key of
        Inl err \<Rightarrow> Inl err
      | Inr (v, s') \<Rightarrow> Inr (v \<noteq> PNone, s'))"

definition get_remaining_ttl :: "store \<Rightarrow> real \<Rightarrow> string \<Rightarrow> py_error + (int option \<times> store)" where
  "get_remaining_ttl s now key =
     (if \<not> dict_contains s key then Inr (None, s)
      else case dict_getitem s key of
        Inl err \<Rightarrow> Inl err
      | Inr e \<Rightarrow>
          if now > expires_at e then Inr (Some 0, s)
          else Inr (Some (py_int (expires_at e - now)), s))"

subsection \<open>Histories of calls\<close>

text \<open>
  A call with its arguments and the clock readings it makes; \<open>exec\<close> is its effect on the
  store, \<open>run\<close> the effect of a sequence of calls, stopping at the first exception.
\<close>

datatype cache_op =
    Get string real
  | Set string pyval int real real
  | Delete string
  | Clear
  | CleanupExpired real
  | GetStats real
  | HasKey string real
  | GetRemainingTtl string real



text \<open>
  The history's last call \<open>set(k, ...)\<close>, with its value, its ttl and its two clock
  readings: a notion of the specification, used to say which call created an entry.
\<close>

fun last_set :: "cache_op list \<Rightarrow> string \<Rightarrow> (pyval \<times> int \<times> real \<times> real) option" where
  "last_set [] k = None"
| "last_set (c # cs) k =
     (case last_set cs k of
        Some x \<Rightarrow> Some x
      | None \<Rightarrow>
          (case c of
             Set k' v ttl t1 t2 \<Rightarrow> if k' = k then Some (v, ttl, t1, t2) else None
           | _ \<Rightarrow> None))"

subsection \<open>set and get_remaining_ttl in double arithmetic\<close>

text \<open>
  The definitions above take the sum and the difference of clock values over the reals.
  The source computes them in doubles: \<open>time.time() + ttl\<close> converts the int to the nearest
  double and returns the nearest double to the sum, and \<open>expires_at - current_time\<close> is the
  nearest double to the difference. Here \<open>rnd\<close>, the rounding of a real to a double, is a
  parameter of the two operations; the conversion overflows as before. Clock readings are
  far below the largest double, so the sum of a reading and a converted ttl is finite.
  With the identity for \<open>rnd\<close> these are the definitions above.
\<close>

definition float_of_int :: "(real \<Rightarrow> real) \<Rightarrow> int \<Rightarrow> py_error + real" where
  "float_of_int rnd n =
     (if \<bar>n\<bar> < 2 ^ 1024 - 2 ^ 970 then Inr (rnd (of_int n)) else Inl OverflowError)"

definition float_add_int_rnd :: "(real \<Rightarrow> real) \<Rightarrow> real \<Rightarrow> int \<Rightarrow> py_error + real" where
  "float_add_int_rnd rnd x n =
     (case float_of_int rnd n of
        Inl err \<Rightarrow> Inl err
      | Inr y \<Rightarrow> Inr (rnd (x + y)))"

definition cache_set_rnd ::
  "(real \<Rightarrow> real) \<Rightarrow> store \<Rightarrow> real \<Rightarrow> real \<Rightarrow> string \<Rightarrow> pyval \<Rightarrow> int \<Rightarrow> py_error + store" where
  "cache_set_rnd rnd s t1 t2 key v ttl =
     (case float_add_int_rnd rnd t1 ttl of
        Inl err \<Rightarrow> Inl err
      | Inr expires \<Rightarrow>
          Inr (dict_setitem s key \<lparr>val = v, expires_at = expires, created_at = t2\<rparr>))"

definition get_remaining_ttl_rnd ::
  "(real \<Rightarrow> real) \<Rightarrow> store \<Rightarrow> real \<Rightarrow> string \<Rightarrow> py_error + (int option \<times> store)" where
  "get_remaining_ttl_rnd rnd s now key =
     (if \<not> dict_contains s key then Inr (None, s)
      else case dict_getitem s key of
        Inl err \<Rightarrow> Inl err
      | Inr e \<Rightarrow>
          if now > expires_at e then Inr (Some 0, s)
          else Inr (Some (py_int (rnd (expires_at e - now))), s))"

fun exec_rnd :: "(real \<Rightarrow> real) \<Rightarrow> store \<Rightarrow> cache_op \<Rightarrow> py_error + store" where
  "exec_rnd rnd s (Get key now) = map_sum id snd (get s now key)"
| "exec_rnd rnd s (Set key v ttl t1 t2) = cache_set_rnd rnd s t1 t2 key v ttl"
| "exec_rnd rnd s (Delete key) = map_sum id snd (delete s key)"
| "exec_rnd rnd s Clear = clear s"
| "exec_rnd rnd s (CleanupExpired now) = map_sum id snd (cleanup_expired s now)"
| "exec_rnd rnd s (GetStats now) = map_sum id snd (get_stats s now)"
| "exec_rnd rnd s (HasKey key now) = map_sum id snd (has_key s now key)"
| "exec_rnd rnd s (GetRemainingTtl key now) =
     map_sum id snd (get_remaining_ttl_rnd rnd s now key)"

fun run_rnd :: "(real \<Rightarrow> real) \<Rightarrow> store \<Rightarrow> cache_op list \<Rightarrow> py_error + store" where
  "run_rnd rnd s [] = Inr s"
| "run_rnd rnd s (c # cs) =
     (case exec_rnd rnd s c of Inl err \<Rightarrow> Inl err | Inr s' \<Rightarrow> run_rnd rnd s' cs)"

subsection \<open>The request handler's use of the cache (backend/app.py, get_weather)\<close>









section \<open>Properties\<close>

subsection \<open>The dict primitives\<close>

lemma dict_contains_iff: "dict_contains s k \<longleftrightarrow> k \<in> fst ` set s"
  by (simp add: dict_contains_def map_of_eq_None_iff)

lemma dict_delitem_present:
  "map_of s k = Some e \<Longrightarrow> dict_delitem s k = Inr (AList.delete k s)"
  by (simp add: dict_delitem_def dict_contains_def)

lemma dict_delitem_absent:
  "map_of s k = None \<Longrightarrow> dict_delitem s k = Inl KeyError"
  by (simp add: dict_delitem_def dict_contains_def)

subsection \<open>get\<close>

lemma get_eq:
  "get s now key =
     Inr (case map_of s key of
            None \<Rightarrow> (PNone, s)
          | Some e \<Rightarrow> if now > expires_at e then (PNone, AList.delete key s) else (val e, s))"
  by (simp add: get_def dict_contains_def dict_getitem_def dict_delitem_def split: option.splits)

text \<open>
  C1. \<open>get(key)\<close> returns None when no entry is stored for the key. For a stored entry it
  returns None exactly when the clock reading is strictly greater than \<open>expires_at\<close>, and
  then the entry is deleted from the store, the other keys keeping their entries; at
  \<open>now = expires_at\<close> and before, it returns the stored value and leaves the store as it is.
\<close>

theorem get_absent_expired_or_value:
  "(map_of s key = None \<longrightarrow> get s now key = Inr (PNone, s))
   \<and> (\<forall>e. map_of s key = Some e \<and> now > expires_at e \<longrightarrow>
         get s now key = Inr (PNone, AList.delete key s)
         \<and> map_of (AList.delete key s) key = None
         \<and> (\<forall>k'. k' \<noteq> key \<longrightarrow> map_of (AList.delete key s) k' = map_of s k'))
   \<and> (\<forall>e. map_of s key = Some e \<and> now \<le> expires_at e \<longrightarrow>
         get s now key = Inr (val e, s))"
  by (simp add: get_eq AList.delete_conv')

theorem get_absent_expired_or_value_witness:
  "get [] 5 ''paris_metric'' = Inr (PNone, [])
   \<and> get [(''paris_metric'', \<lparr>val = PStr ''sunny'', expires_at = 10, created_at = 1\<rparr>)]
        11 ''paris_metric'' = Inr (PNone, [])
   \<and> get [(''paris_metric'', \<lparr>val = PStr ''sunny'', expires_at = 10, created_at = 1\<rparr>)]
        10 ''paris_metric''
      = Inr (PStr ''sunny'',
             [(''paris_metric'', \<lparr>val = PStr ''sunny'', expires_at = 10, created_at = 1\<rparr>)])"
  using get_absent_expired_or_value [of "[]" "''paris_metric''" 5]
    get_absent_expired_or_value
      [of "[(''paris_metric'', \<lparr>val = PStr ''sunny'', expires_at = 10, created_at = 1\<rparr>)]"
          "''paris_metric''" 11]
    get_absent_expired_or_value
      [of "[(''paris_metric'', \<lparr>val = PStr ''sunny'', expires_at = 10, created_at = 1\<rparr>)]"
          "''paris_metric''" 10]
  by simp

subsection \<open>delete\<close>

lemma delete_eq:
  "delete s key = Inr (key \<in> fst ` set s, AList.delete key s)"
  by (auto simp: delete_def dict_delitem_def dict_contains_iff)

text \<open>
  C2, as stated, fails: \<open>delete\<close> never reads the clock. An entry whose \<open>expires_at\<close> has
  passed and that no \<open>get\<close> or sweep has removed yet is still in the dict, and deleting it
  returns True.
\<close>

theorem delete_expired_counterexample:
  "(11::real) > expires_at \<lparr>val = PStr ''sunny'', expires_at = 10, created_at = 1\<rparr>
   \<and> delete [(''paris_metric'', \<lparr>val = PStr ''sunny'', expires_at = 10, created_at = 1\<rparr>)]
        ''paris_metric'' = Inr (True, [])"
  by (simp add: delete_eq)

text \<open>
  C2, amended. \<open>delete(key)\<close> returns True exactly when an entry is stored for the key,
  expired or not, and removes it, the other keys keeping their entries; it returns False,
  with the store as it was, when no entry is stored. A second \<open>delete\<close> of the same key
  right after returns False.
\<close>

theorem delete_true_iff_stored:
  "delete s key = Inr (key \<in> fst ` set s, AList.delete key s)
   \<and> (key \<notin> fst ` set s \<longrightarrow> AList.delete key s = s)
   \<and> map_of (AList.delete key s) key = None
   \<and> (\<forall>k'. k' \<noteq> key \<longrightarrow> map_of (AList.delete key s) k' = map_of s k')
   \<and> delete (AList.delete key s) key = Inr (False, AList.delete key s)"
  by (simp add: delete_eq AList.delete_conv' AList.delete_notin_dom AList.delete_idem)

theorem delete_true_iff_stored_witness:
  "delete [(''paris_metric'', \<lparr>val = PStr ''sunny'', expires_at = 10, created_at = 1\<rparr>)]
     ''paris_metric'' = Inr (True, [])
   \<and> delete [] ''paris_metric'' = Inr (False, [])"
  using delete_true_iff_stored
      [of "[(''paris_metric'', \<lparr>val = PStr ''sunny'', expires_at = 10, created_at = 1\<rparr>)]"
          "''paris_metric''"]
  by simp

subsection \<open>set\<close>




lemma cache_set_small:
  "\<bar>ttl\<bar> < 2 ^ 1024 - 2 ^ 970 \<Longrightarrow>
     cache_set s t1 t2 key v ttl =
       Inr (AList.update key \<lparr>val = v, expires_at = t1 + of_int ttl, created_at = t2\<rparr> s)"
  by (simp add: cache_set_def float_add_int_def dict_setitem_def)

lemma cache_set_default_900:
  "cache_set_default s t1 t2 key v =
     Inr (AList.update key \<lparr>val = v, expires_at = t1 + 900, created_at = t2\<rparr> s)"
  by (simp add: cache_set_default_def cache_set_small)





subsection \<open>The sweep\<close>

lemma expired_keys_eq:
  "[key. (key, e) \<leftarrow> s, now > expires_at e] =
     map fst (filter (\<lambda>(key, e). now > expires_at e) s)"
  by (induction s) auto

lemma expired_count_eq:
  "sum_list [1. e \<leftarrow> map snd s, now > expires_at e] =
     int (length (filter (\<lambda>(key, e). now > expires_at e) s))"
  by (induction s) auto

lemma length_expired_kept:
  "length s = length (filter (\<lambda>(k, e). now > expires_at e) s)
                + length (filter (\<lambda>(k, e). \<not> now > expires_at e) s)"
  by (induction s) auto

lemma del_keys_Inr:
  "del_keys s ks = Inr s' \<Longrightarrow> s' = filter (\<lambda>(k, e). k \<notin> set ks) s"
proof (induction ks arbitrary: s)
  case Nil
  then show ?case by simp
next
  case (Cons k ks)
  from Cons.prems obtain s1 where d: "dict_delitem s k = Inr s1" and r: "del_keys s1 ks = Inr s'"
    by (auto split: sum.splits)
  from d have "s1 = AList.delete k s"
    by (auto simp: dict_delitem_def split: if_splits)
  with Cons.IH [OF r] show ?case
    by (auto simp: AList.delete_eq intro: filter_cong)
qed

lemma del_keys_ok:
  "distinct ks \<Longrightarrow> set ks \<subseteq> fst ` set s \<Longrightarrow>
     del_keys s ks = Inr (filter (\<lambda>(k, e). k \<notin> set ks) s)"
proof (induction ks arbitrary: s)
  case Nil
  then show ?case by simp
next
  case (Cons k ks)
  have d: "dict_delitem s k = Inr (AList.delete k s)"
    using Cons.prems by (simp add: dict_delitem_def dict_contains_iff)
  have "set ks \<subseteq> fst ` set (AList.delete k s)"
    using Cons.prems by (force simp: AList.delete_eq)
  with Cons.IH [of "AList.delete k s"] Cons.prems
  have "del_keys (AList.delete k s) ks = Inr (filter (\<lambda>(k, e). k \<notin> set ks) (AList.delete k s))"
    by simp
  with d show ?case
    by (auto simp: AList.delete_eq intro: filter_cong)
qed

lemma cleanup_expired_eq:
  assumes "distinct (map fst s)"
  shows "cleanup_expired s now =
           Inr (int (length (filter (\<lambda>(k, e). now > expires_at e) s)),
                filter (\<lambda>(k, e). \<not> now > expires_at e) s)"
proof -
  let ?ks = "map fst (filter (\<lambda>(k, e). now > expires_at e) s)"
  have dk: "distinct ?ks"
    using assms by (rule distinct_map_filter)
  have sub: "set ?ks \<subseteq> fst ` set s"
    by auto
  have "filter (\<lambda>(k, e). k \<notin> set ?ks) s = filter (\<lambda>(k, e). \<not> now > expires_at e) s"
  proof (rule filter_cong [OF refl])
    fix x assume x: "x \<in> set s"
    obtain k e where xe: "x = (k, e)" by (cases x)
    have "k \<in> set ?ks \<longleftrightarrow> now > expires_at e"
    proof
      assume "k \<in> set ?ks"
      then obtain e' where e': "(k, e') \<in> set s" "now > expires_at e'" by auto
      with assms x xe have "e' = e" by (meson eq_key_imp_eq_value)
      with e' show "now > expires_at e" by simp
    next
      assume "now > expires_at e"
      with x xe show "k \<in> set ?ks" by force
    qed
    then show "(case x of (k, e) \<Rightarrow> k \<notin> set ?ks) = (case x of (k, e) \<Rightarrow> \<not> now > expires_at e)"
      by (simp add: xe)
  qed
  with del_keys_ok [OF dk sub] show ?thesis
    by (simp add: cleanup_expired_def expired_keys_eq)
qed

lemma cleanup_expired_Inr:
  "cleanup_expired s now = Inr (n, s') \<Longrightarrow>
     \<exists>ks. s' = filter (\<lambda>(k, e). k \<notin> set ks) s"
  by (auto simp: cleanup_expired_def Let_def split: sum.splits dest: del_keys_Inr)

subsection \<open>What a call does to the store\<close>

lemma map_of_filter_keys:
  "map_of (filter (\<lambda>(k, e). k \<notin> A) s) k = (if k \<in> A then None else map_of s k)"
  by (induction s) auto

lemma get_store:
  "get s now key = Inr (v, s') \<Longrightarrow> s' = s \<or> s' = AList.delete key s"
  by (auto simp: get_eq split: option.splits if_splits)

lemma has_key_store:
  "has_key s now key = Inr (b, s') \<Longrightarrow> s' = s \<or> s' = AList.delete key s"
  by (auto simp: has_key_def split: sum.splits dest: get_store)

lemma get_remaining_ttl_store:
  "get_remaining_ttl s now key = Inr (r, s') \<Longrightarrow> s' = s"
  by (auto simp: get_remaining_ttl_def split: sum.splits if_splits)

lemma get_remaining_ttl_rnd_store:
  "get_remaining_ttl_rnd rnd s now key = Inr (r, s') \<Longrightarrow> s' = s"
  by (auto simp: get_remaining_ttl_rnd_def split: sum.splits if_splits)

lemma cache_set_rnd_Inr:
  "cache_set_rnd rnd s t1 t2 key v ttl = Inr s' \<Longrightarrow>
     s' = AList.update key
            \<lparr>val = v, expires_at = rnd (t1 + rnd (of_int ttl)), created_at = t2\<rparr> s"
  by (auto simp: cache_set_rnd_def float_add_int_rnd_def float_of_int_def dict_setitem_def
      split: if_splits)

lemma cache_set_rnd_small:
  "\<bar>ttl\<bar> < 2 ^ 1024 - 2 ^ 970 \<Longrightarrow>
     cache_set_rnd rnd s t1 t2 key v ttl =
       Inr (AList.update key
              \<lparr>val = v, expires_at = rnd (t1 + rnd (of_int ttl)), created_at = t2\<rparr> s)"
  by (simp add: cache_set_rnd_def float_add_int_rnd_def float_of_int_def dict_setitem_def)





lemma delete_as_filter: "AList.delete key s = filter (\<lambda>(k, e). k \<notin> {key}) s"
  by (auto simp: AList.delete_eq intro: filter_cong)

lemma delete_ex_filter: "\<exists>A. AList.delete key s = filter (\<lambda>(k, e). k \<notin> A) s"
  by (rule exI [of _ "{key}"]) (rule delete_as_filter)

lemma same_ex_filter: "\<exists>A. (s :: store) = filter (\<lambda>(k, e). k \<notin> A) s"
  by (rule exI [of _ "{}"]) simp

lemma nil_ex_filter: "\<exists>A. [] = filter (\<lambda>(k, e). k \<notin> A) (s :: store)"
  by (rule exI [of _ UNIV]) simp

lemma exec_Get:
  assumes "exec_rnd rnd s (Get key now) = Inr s1"
  shows "\<exists>A. s1 = filter (\<lambda>(k, e). k \<notin> A) s"
proof -
  from assms obtain v where "get s now key = Inr (v, s1)"
    by (cases "get s now key") (simp_all, metis prod.collapse)
  from get_store [OF this] show ?thesis
    using delete_ex_filter [of key s] same_ex_filter [of s] by auto
qed

lemma exec_HasKey:
  assumes "exec_rnd rnd s (HasKey key now) = Inr s1"
  shows "\<exists>A. s1 = filter (\<lambda>(k, e). k \<notin> A) s"
proof -
  from assms obtain b where "has_key s now key = Inr (b, s1)"
    by (cases "has_key s now key") (simp_all, metis prod.collapse)
  from has_key_store [OF this] show ?thesis
    using delete_ex_filter [of key s] same_ex_filter [of s] by auto
qed

lemma exec_Delete:
  "exec_rnd rnd s (Delete key) = Inr s1 \<Longrightarrow> \<exists>A. s1 = filter (\<lambda>(k, e). k \<notin> A) s"
  using delete_ex_filter [of key s] by (auto simp: delete_eq)

lemma exec_Clear:
  "exec_rnd rnd s Clear = Inr s1 \<Longrightarrow> \<exists>A. s1 = filter (\<lambda>(k, e). k \<notin> A) s"
  using nil_ex_filter [of s] by (auto simp: clear_def)

lemma exec_CleanupExpired:
  assumes "exec_rnd rnd s (CleanupExpired now) = Inr s1"
  shows "\<exists>A. s1 = filter (\<lambda>(k, e). k \<notin> A) s"
proof -
  from assms obtain n where "cleanup_expired s now = Inr (n, s1)"
    by (cases "cleanup_expired s now") (simp_all, metis prod.collapse)
  from cleanup_expired_Inr [OF this] show ?thesis by blast
qed

lemma exec_GetStats:
  assumes "exec_rnd rnd s (GetStats now) = Inr s1"
  shows "\<exists>A. s1 = filter (\<lambda>(k, e). k \<notin> A) s"
proof -
  from assms have "s1 = s" by (simp add: get_stats_def Let_def)
  then show ?thesis using same_ex_filter [of s] by simp
qed

lemma exec_GetRemainingTtl:
  assumes "exec_rnd rnd s (GetRemainingTtl key now) = Inr s1"
  shows "\<exists>A. s1 = filter (\<lambda>(k, e). k \<notin> A) s"
proof -
  from assms obtain r where "get_remaining_ttl_rnd rnd s now key = Inr (r, s1)"
    by (cases "get_remaining_ttl_rnd rnd s now key") (simp_all, metis prod.collapse)
  from get_remaining_ttl_rnd_store [OF this] show ?thesis
    using same_ex_filter [of s] by simp
qed

lemma exec_Set:
  "exec_rnd rnd s (Set key v ttl t1 t2) = Inr s1 \<Longrightarrow>
     s1 = AList.update key
            \<lparr>val = v, expires_at = rnd (t1 + rnd (of_int ttl)), created_at = t2\<rparr> s"
  by (simp add: cache_set_rnd_Inr)

text \<open>
  A \<open>set\<close> writes one entry; every other call only removes entries, whole keys at a time,
  and never changes an entry it keeps.
\<close>

lemma exec_store:
  assumes ex: "exec_rnd rnd s c = Inr s1"
  shows "(\<exists>key v ttl t1 t2. c = Set key v ttl t1 t2
            \<and> s1 = AList.update key
                     \<lparr>val = v, expires_at = rnd (t1 + rnd (of_int ttl)), created_at = t2\<rparr> s)
         \<or> (\<forall>key v ttl t1 t2. c \<noteq> Set key v ttl t1 t2)
            \<and> (\<exists>A. s1 = filter (\<lambda>(k, e). k \<notin> A) s)"
proof (cases c)
  case (Get key now)
  then show ?thesis using ex exec_Get [of rnd s key now s1] by simp
next
  case (Set key v ttl t1 t2)
  then show ?thesis using ex exec_Set [of rnd s key v ttl t1 t2 s1] by simp
next
  case (Delete key)
  then show ?thesis using ex exec_Delete [of rnd s key s1] by simp
next
  case Clear
  then show ?thesis using ex exec_Clear [of rnd s s1] by simp
next
  case (CleanupExpired now)
  then show ?thesis using ex exec_CleanupExpired [of rnd s now s1] by simp
next
  case (GetStats now)
  then show ?thesis using ex exec_GetStats [of rnd s now s1] by simp
next
  case (HasKey key now)
  then show ?thesis using ex exec_HasKey [of rnd s key now s1] by simp
next
  case (GetRemainingTtl key now)
  then show ?thesis using ex exec_GetRemainingTtl [of rnd s key now s1] by simp
qed

lemma exec_entry_kept:
  assumes "exec_rnd rnd s c = Inr s1" and "map_of s1 k = Some e"
    and "\<forall>v ttl t1 t2. c \<noteq> Set k v ttl t1 t2"
  shows "map_of s k = Some e"
proof -
  from exec_store [OF assms(1)] show ?thesis
  proof (elim disjE exE conjE)
    fix key v ttl t1 t2
    assume c: "c = Set key v ttl t1 t2"
      and s1: "s1 = AList.update key
                      \<lparr>val = v, expires_at = rnd (t1 + rnd (of_int ttl)), created_at = t2\<rparr> s"
    from c assms(3) have "key \<noteq> k" by simp
    with s1 assms(2) show ?thesis by (simp add: AList.update_conv')
  next
    fix A
    assume "s1 = filter (\<lambda>(k, e). k \<notin> A) s"
    with assms(2) show ?thesis by (simp add: map_of_filter_keys split: if_splits)
  qed
qed

lemma exec_set_entry:
  assumes "exec_rnd rnd s (Set k v ttl t1 t2) = Inr s1"
  shows "map_of s1 k
           = Some \<lparr>val = v, expires_at = rnd (t1 + rnd (of_int ttl)), created_at = t2\<rparr>"
  using exec_Set [OF assms] by (simp add: AList.update_conv')

lemma run_entry_origin:
  "run_rnd rnd s cs = Inr s' \<Longrightarrow> map_of s' k = Some e \<Longrightarrow>
     (case last_set cs k of
        Some (v, ttl, t1, t2) \<Rightarrow>
          e = \<lparr>val = v, expires_at = rnd (t1 + rnd (of_int ttl)), created_at = t2\<rparr>
      | None \<Rightarrow> map_of s k = Some e)"
proof (induction cs arbitrary: s)
  case Nil
  then show ?case by simp
next
  case (Cons c cs)
  from Cons.prems(1) obtain s1 where c: "exec_rnd rnd s c = Inr s1"
      and r: "run_rnd rnd s1 cs = Inr s'"
    by (auto split: sum.splits)
  note ih = Cons.IH [OF r Cons.prems(2)]
  show ?case
  proof (cases "last_set cs k")
    case (Some x)
    with ih show ?thesis by simp
  next
    case None
    with ih have s1: "map_of s1 k = Some e" by simp
    show ?thesis
    proof (cases "\<exists>v ttl t1 t2. c = Set k v ttl t1 t2")
      case True
      then obtain v ttl t1 t2 where cs: "c = Set k v ttl t1 t2" by blast
      with c s1 exec_set_entry [of rnd s k v ttl t1 t2 s1] None show ?thesis by simp
    next
      case False
      then have "map_of s k = Some e"
        using exec_entry_kept [OF c s1] by simp
      with False None show ?thesis by (auto split: cache_op.splits)
    qed
  qed
qed




text \<open>
  C3, as stated, fails: \<open>set\<close> reads the clock once for \<open>expires_at\<close> and a second time
  for \<open>created_at\<close>. With readings 100 and 101 and \<open>ttl = 60\<close> the entry expires at 160,
  not at \<open>created_at + ttl = 161\<close>.
\<close>

theorem set_two_clock_readings_counterexample:
  "cache_set init 100 101 ''paris_metric'' (PStr ''sunny'') 60
     = Inr [(''paris_metric'', \<lparr>val = PStr ''sunny'', expires_at = 160, created_at = 101\<rparr>)]
   \<and> expires_at \<lparr>val = PStr ''sunny'', expires_at = 160, created_at = 101\<rparr>
       \<noteq> created_at \<lparr>val = PStr ''sunny'', expires_at = 160, created_at = 101\<rparr> + of_int 60"
  by (simp add: cache_set_small init_def)

text \<open>
  C3, amended. In every store reached from the empty one by a history of calls, each entry
  is the one written by the history's last \<open>set\<close> on its key: its \<open>expires_at\<close> is the
  double sum of that call's first clock reading and its ttl, and its \<open>created_at\<close> is that
  call's second clock reading. When the two readings of that call are equal, \<open>expires_at\<close>
  is the double sum of \<open>created_at\<close> and the ttl. This holds whatever the rounding of
  doubles is.
\<close>

theorem entry_expires_at_is_first_reading_plus_ttl:
  assumes "run_rnd rnd init cs = Inr s" and "map_of s k = Some e"
  shows "\<exists>v ttl t1 t2. last_set cs k = Some (v, ttl, t1, t2)
           \<and> val e = v
           \<and> expires_at e = rnd (t1 + rnd (of_int ttl))
           \<and> created_at e = t2
           \<and> (t1 = t2 \<longrightarrow> expires_at e = rnd (created_at e + rnd (of_int ttl)))"
proof (cases "last_set cs k")
  case None
  with run_entry_origin [OF assms] show ?thesis by (simp add: init_def)
next
  case (Some x)
  obtain v ttl t1 t2 where x: "x = (v, ttl, t1, t2)" by (cases x)
  with Some run_entry_origin [OF assms]
  have "e = \<lparr>val = v, expires_at = rnd (t1 + rnd (of_int ttl)), created_at = t2\<rparr>" by simp
  with Some x show ?thesis by simp
qed

lemma run_rnd_example:
  "run_rnd (\<lambda>x. x) init
     [Set ''paris_metric'' (PStr ''sunny'') 60 100 101, Get ''paris_metric'' 120]
     = Inr [(''paris_metric'', \<lparr>val = PStr ''sunny'', expires_at = 160, created_at = 101\<rparr>)]"
  by (simp add: init_def cache_set_rnd_small get_eq)

theorem entry_expires_at_is_first_reading_plus_ttl_witness:
  "run_rnd (\<lambda>x. x) init
     [Set ''paris_metric'' (PStr ''sunny'') 60 100 101, Get ''paris_metric'' 120]
     = Inr [(''paris_metric'', \<lparr>val = PStr ''sunny'', expires_at = 160, created_at = 101\<rparr>)]
   \<and> map_of [(''paris_metric'', \<lparr>val = PStr ''sunny'', expires_at = 160, created_at = 101\<rparr>)]
        ''paris_metric''
       = Some \<lparr>val = PStr ''sunny'', expires_at = 160, created_at = 101\<rparr>
   \<and> (\<exists>v ttl t1 t2.
         last_set [Set ''paris_metric'' (PStr ''sunny'') 60 100 101, Get ''paris_metric'' 120]
           ''paris_metric'' = Some (v, ttl, t1, t2)
         \<and> expires_at \<lparr>val = PStr ''sunny'', expires_at = 160, created_at = 101\<rparr>
             = t1 + of_int ttl
         \<and> created_at \<lparr>val = PStr ''sunny'', expires_at = 160, created_at = 101\<rparr> = t2)"
proof -
  have m: "map_of [(''paris_metric'', \<lparr>val = PStr ''sunny'', expires_at = 160, created_at = 101\<rparr>)]
        ''paris_metric''
       = Some \<lparr>val = PStr ''sunny'', expires_at = 160, created_at = 101\<rparr>"
    by simp
  from entry_expires_at_is_first_reading_plus_ttl [OF run_rnd_example m] run_rnd_example m
  show ?thesis by blast
qed

text \<open>
  C4. The code at the input where the claim's \<open>has_key\<close> part fails: right after
  \<open>set(key, None, 60)\<close>, \<open>get(key)\<close> returns the stored value, which is None, and
  \<open>has_key(key)\<close> is False although the entry is stored and has not expired.
\<close>

theorem has_key_false_after_set_none:
  "cache_set init 100 100 ''paris_metric'' PNone 60
     = Inr [(''paris_metric'', \<lparr>val = PNone, expires_at = 160, created_at = 100\<rparr>)]
   \<and> get [(''paris_metric'', \<lparr>val = PNone, expires_at = 160, created_at = 100\<rparr>)]
        100 ''paris_metric''
       = Inr (PNone, [(''paris_metric'', \<lparr>val = PNone, expires_at = 160, created_at = 100\<rparr>)])
   \<and> has_key [(''paris_metric'', \<lparr>val = PNone, expires_at = 160, created_at = 100\<rparr>)]
        100 ''paris_metric''
       = Inr (False, [(''paris_metric'', \<lparr>val = PNone, expires_at = 160, created_at = 100\<rparr>)])"
  by (simp add: init_def cache_set_small get_eq has_key_def)



subsection \<open>cleanup_expired\<close>

lemma map_of_filter_distinct:
  assumes "distinct (map fst s)"
  shows "map_of (filter P s) k =
           (case map_of s k of None \<Rightarrow> None | Some e \<Rightarrow> if P (k, e) then Some e else None)"
  using assms
proof (induction s)
  case Nil
  then show ?case by simp
next
  case (Cons x s)
  obtain k' e' where x: "x = (k', e')" by (cases x)
  from Cons.prems x have notin: "k' \<notin> fst ` set s" by simp
  then have none: "map_of s k' = None" by (simp add: map_of_eq_None_iff)
  from Cons x none show ?case by (auto split: option.splits)
qed

text \<open>
  C6. On a store with unique keys, as every dict is, \<open>cleanup_expired\<close> keeps exactly the
  entries with \<open>now \<le> expires_at\<close>, in their order, removes exactly those with
  \<open>now > expires_at\<close>, and returns the number of removed entries, which is the number
  stored before minus the number stored after. A kept entry is still returned by a \<open>get\<close>
  on the swept store at any clock reading up to its \<open>expires_at\<close>.
\<close>

theorem cleanup_expired_removes_exactly_expired:
  assumes "distinct (map fst s)"
  shows "cleanup_expired s now =
           Inr (int (length (filter (\<lambda>(k, e). now > expires_at e) s)),
                filter (\<lambda>(k, e). \<not> now > expires_at e) s)
         \<and> int (length (filter (\<lambda>(k, e). now > expires_at e) s))
             = int (length s) - int (length (filter (\<lambda>(k, e). \<not> now > expires_at e) s))
         \<and> (\<forall>k e. map_of s k = Some e \<and> now > expires_at e \<longrightarrow>
               map_of (filter (\<lambda>(k, e). \<not> now > expires_at e) s) k = None)
         \<and> (\<forall>k e. map_of s k = Some e \<and> now \<le> expires_at e \<longrightarrow>
               map_of (filter (\<lambda>(k, e). \<not> now > expires_at e) s) k = Some e)
         \<and> (\<forall>k e now'. map_of s k = Some e \<and> now \<le> expires_at e \<and> now' \<le> expires_at e \<longrightarrow>
               get (filter (\<lambda>(k, e). \<not> now > expires_at e) s) now' k
                 = Inr (val e, filter (\<lambda>(k, e). \<not> now > expires_at e) s))"
proof -
  let ?kept = "filter (\<lambda>(k, e). \<not> now > expires_at e) s"
  have m: "\<And>k. map_of ?kept k =
             (case map_of s k of None \<Rightarrow> None
              | Some e \<Rightarrow> if \<not> now > expires_at e then Some e else None)"
    using map_of_filter_distinct [OF assms, of "\<lambda>(k, e). \<not> now > expires_at e"]
    by (simp split: option.splits)
  have len: "length s = length (filter (\<lambda>(k, e). now > expires_at e) s) + length ?kept"
    by (rule length_expired_kept)
  have c1: "cleanup_expired s now =
           Inr (int (length (filter (\<lambda>(k, e). now > expires_at e) s)), ?kept)"
    by (rule cleanup_expired_eq [OF assms])
  have c2: "int (length (filter (\<lambda>(k, e). now > expires_at e) s))
             = int (length s) - int (length ?kept)"
    using len by simp
  have c3: "\<forall>k e. map_of s k = Some e \<and> now > expires_at e \<longrightarrow> map_of ?kept k = None"
    by (simp add: m)
  have c4: "\<forall>k e. map_of s k = Some e \<and> now \<le> expires_at e \<longrightarrow> map_of ?kept k = Some e"
    by (simp add: m)
  have c5: "\<forall>k e now'. map_of s k = Some e \<and> now \<le> expires_at e \<and> now' \<le> expires_at e \<longrightarrow>
               get ?kept now' k = Inr (val e, ?kept)"
    by (simp add: get_eq m)
  from c1 c2 c3 c4 c5 show ?thesis by blast
qed

theorem cleanup_expired_removes_exactly_expired_witness:
  "distinct (map fst
     [(''paris_metric'', \<lparr>val = PStr ''sunny'', expires_at = 10, created_at = 1\<rparr>),
      (''oslo_metric'', \<lparr>val = PStr ''snow'', expires_at = 50, created_at = 2\<rparr>)])
   \<and> cleanup_expired
        [(''paris_metric'', \<lparr>val = PStr ''sunny'', expires_at = 10, created_at = 1\<rparr>),
         (''oslo_metric'', \<lparr>val = PStr ''snow'', expires_at = 50, created_at = 2\<rparr>)] 20
       = Inr (1, [(''oslo_metric'', \<lparr>val = PStr ''snow'', expires_at = 50, created_at = 2\<rparr>)])
   \<and> get [(''oslo_metric'', \<lparr>val = PStr ''snow'', expires_at = 50, created_at = 2\<rparr>)]
        30 ''oslo_metric''
       = Inr (PStr ''snow'',
              [(''oslo_metric'', \<lparr>val = PStr ''snow'', expires_at = 50, created_at = 2\<rparr>)])"
proof -
  let ?p = "\<lparr>val = PStr ''sunny'', expires_at = 10, created_at = 1\<rparr>"
  let ?o = "\<lparr>val = PStr ''snow'', expires_at = 50, created_at = 2\<rparr>"
  let ?s = "[(''paris_metric'', ?p), (''oslo_metric'', ?o)]"
  let ?kept = "filter (\<lambda>(k, e). \<not> 20 > expires_at e) ?s"
  have d: "distinct (map fst ?s)"
    by simp
  have kept: "?kept = [(''oslo_metric'', ?o)]"
    by simp
  have n: "int (length (filter (\<lambda>(k, e). 20 > expires_at e) ?s)) = 1"
    by simp
  note t = cleanup_expired_removes_exactly_expired [OF d, of 20]
  from t have "cleanup_expired ?s 20
                 = Inr (int (length (filter (\<lambda>(k, e). 20 > expires_at e) ?s)), ?kept)"
    by (rule conjunct1)
  then have c: "cleanup_expired ?s 20 = Inr (1, [(''oslo_metric'', ?o)])"
    by (simp only: kept n)
  from t have "map_of ?s ''oslo_metric'' = Some ?o \<and> 20 \<le> expires_at ?o \<and> 30 \<le> expires_at ?o
                 \<longrightarrow> get ?kept 30 ''oslo_metric'' = Inr (val ?o, ?kept)"
    by blast
  then have "get ?kept 30 ''oslo_metric'' = Inr (val ?o, ?kept)"
    by simp
  then have g: "get [(''oslo_metric'', ?o)] 30 ''oslo_metric''
                  = Inr (PStr ''snow'', [(''oslo_metric'', ?o)])"
    by (simp only: kept) simp
  from d c g show ?thesis by blast
qed

subsection \<open>get_remaining_ttl\<close>

lemma py_int_nonneg: "0 \<le> x \<Longrightarrow> py_int x = \<lfloor>x\<rfloor>"
  by (simp add: py_int_def)

lemma get_remaining_ttl_eq:
  "get_remaining_ttl s now key =
     Inr (case map_of s key of
            None \<Rightarrow> None
          | Some e \<Rightarrow> Some \<lfloor>max 0 (expires_at e - now)\<rfloor>, s)"
  by (auto simp: get_remaining_ttl_def dict_contains_def dict_getitem_def py_int_nonneg max_def
      split: option.splits)

lemma get_remaining_ttl_rnd_eq:
  "get_remaining_ttl_rnd rnd s now key =
     Inr (case map_of s key of
            None \<Rightarrow> None
          | Some e \<Rightarrow>
              if now > expires_at e then Some 0
              else Some (py_int (rnd (expires_at e - now))), s)"
  by (auto simp: get_remaining_ttl_rnd_def dict_contains_def dict_getitem_def
      split: option.splits)

lemma rnd_diff_nonneg:
  assumes "mono (rnd :: real \<Rightarrow> real)" and "rnd 0 = 0" and "now \<le> a"
  shows "0 \<le> rnd (a - now)"
proof -
  from assms(3) have "(0::real) \<le> a - now" by simp
  then have "rnd 0 \<le> rnd (a - now)" by (rule monoD [OF assms(1)])
  with assms(2) show ?thesis by simp
qed

lemma rnd_diff_nonpos:
  assumes "mono (rnd :: real \<Rightarrow> real)" and "rnd 0 = 0" and "now > a"
  shows "rnd (a - now) \<le> 0"
proof -
  from assms(3) have "a - now \<le> (0::real)" by simp
  then have "rnd (a - now) \<le> rnd 0" by (rule monoD [OF assms(1)])
  with assms(2) show ?thesis by simp
qed

text \<open>
  C7, as stated, fails: the result is not rounded. With \<open>expires_at = 160\<close> and the clock
  at 100.25 the difference is 59.75, which rounds to 60, and \<open>get_remaining_ttl\<close> returns
  59. All the values are doubles, so the rounding of doubles changes none of them.
\<close>

theorem get_remaining_ttl_not_rounded_counterexample:
  "get_remaining_ttl_rnd (\<lambda>x. x)
     [(''paris_metric'', \<lparr>val = PStr ''sunny'', expires_at = 160, created_at = 100\<rparr>)]
     (401 / 4) ''paris_metric''
     = Inr (Some 59,
            [(''paris_metric'', \<lparr>val = PStr ''sunny'', expires_at = 160, created_at = 100\<rparr>)])
   \<and> round (max 0 (expires_at \<lparr>val = PStr ''sunny'', expires_at = 160, created_at = 100\<rparr>
                      - 401 / 4 :: real)) = 60"
  by (simp add: get_remaining_ttl_rnd_eq py_int_def round_def)

text \<open>
  C7, amended. \<open>get_remaining_ttl(key)\<close> returns None when no entry is stored for the key.
  For a stored entry it returns 0 once \<open>now > expires_at\<close>, and otherwise the double
  difference \<open>expires_at - now\<close> cut to a whole number of seconds by \<open>int()\<close>, which
  truncates; the rounding of doubles being monotone and leaving 0 as it is, that is
  \<open>max(0, expires_at - now)\<close> rounded down. Right after a \<open>set\<close> with \<open>ttl = 60\<close> whose
  sum \<open>t1 + 60\<close> is a double, up to one second after its first clock reading, the result
  is 59 or 60. The store is never changed, an expired entry stays.
\<close>

theorem get_remaining_ttl_truncated:
  "(map_of s key = None \<longrightarrow> get_remaining_ttl_rnd rnd s now key = Inr (None, s))
   \<and> (\<forall>e. map_of s key = Some e \<and> now > expires_at e \<longrightarrow>
         get_remaining_ttl_rnd rnd s now key = Inr (Some 0, s))
   \<and> (\<forall>e. map_of s key = Some e \<and> now \<le> expires_at e \<longrightarrow>
         get_remaining_ttl_rnd rnd s now key
           = Inr (Some (py_int (rnd (expires_at e - now))), s))
   \<and> (mono rnd \<and> rnd 0 = 0 \<longrightarrow>
        (\<forall>e. map_of s key = Some e \<longrightarrow>
           get_remaining_ttl_rnd rnd s now key
             = Inr (Some \<lfloor>max 0 (rnd (expires_at e - now))\<rfloor>, s)))
   \<and> (\<forall>s0 t1 t2 v.
         mono rnd \<and> rnd 59 = 59 \<and> rnd 60 = 60 \<and> rnd (t1 + 60) = t1 + 60
         \<and> cache_set_rnd rnd s0 t1 t2 key v 60 = Inr s \<and> t1 \<le> now \<and> now \<le> t1 + 1 \<longrightarrow>
         (\<exists>r. get_remaining_ttl_rnd rnd s now key = Inr (Some r, s) \<and> 59 \<le> r \<and> r \<le> 60))"
proof (intro conjI allI impI)
  assume "map_of s key = None"
  then show "get_remaining_ttl_rnd rnd s now key = Inr (None, s)"
    by (simp add: get_remaining_ttl_rnd_eq)
next
  fix e assume "map_of s key = Some e \<and> now > expires_at e"
  then show "get_remaining_ttl_rnd rnd s now key = Inr (Some 0, s)"
    by (simp add: get_remaining_ttl_rnd_eq)
next
  fix e assume "map_of s key = Some e \<and> now \<le> expires_at e"
  then show "get_remaining_ttl_rnd rnd s now key
               = Inr (Some (py_int (rnd (expires_at e - now))), s)"
    by (simp add: get_remaining_ttl_rnd_eq)
next
  fix e assume r: "mono rnd \<and> rnd 0 = 0" and m: "map_of s key = Some e"
  show "get_remaining_ttl_rnd rnd s now key
          = Inr (Some \<lfloor>max 0 (rnd (expires_at e - now))\<rfloor>, s)"
  proof (cases "now > expires_at e")
    case True
    with r have "rnd (expires_at e - now) \<le> 0"
      using rnd_diff_nonpos [of rnd "expires_at e" now] by simp
    then have "max 0 (rnd (expires_at e - now)) = 0" by simp
    with True m show ?thesis by (simp add: get_remaining_ttl_rnd_eq)
  next
    case False
    with r have nn: "0 \<le> rnd (expires_at e - now)"
      using rnd_diff_nonneg [of rnd now "expires_at e"] by simp
    then have "max 0 (rnd (expires_at e - now)) = rnd (expires_at e - now)" by simp
    with False m nn show ?thesis by (simp add: get_remaining_ttl_rnd_eq py_int_nonneg)
  qed
next
  fix s0 t1 t2 v
  assume a: "mono rnd \<and> rnd 59 = 59 \<and> rnd 60 = 60 \<and> rnd (t1 + 60) = t1 + 60
             \<and> cache_set_rnd rnd s0 t1 t2 key v 60 = Inr s \<and> t1 \<le> now \<and> now \<le> t1 + 1"
  then have "s = AList.update key
                   \<lparr>val = v, expires_at = rnd (t1 + rnd (of_int 60)), created_at = t2\<rparr> s0"
    using cache_set_rnd_Inr [of rnd s0 t1 t2 key v 60 s] by simp
  with a have m: "map_of s key = Some \<lparr>val = v, expires_at = t1 + 60, created_at = t2\<rparr>"
    by (simp add: AList.update_conv')
  from a have live: "\<not> now > t1 + 60" by simp
  from a have mo: "mono rnd" by simp
  from a have "(59::real) \<le> t1 + 60 - now" by simp
  then have "rnd 59 \<le> rnd (t1 + 60 - now)" by (rule monoD [OF mo])
  with a have lo: "59 \<le> rnd (t1 + 60 - now)" by simp
  from a have "t1 + 60 - now \<le> (60::real)" by simp
  then have "rnd (t1 + 60 - now) \<le> rnd 60" by (rule monoD [OF mo])
  with a have hi: "rnd (t1 + 60 - now) \<le> 60" by simp
  from lo have p: "py_int (rnd (t1 + 60 - now)) = \<lfloor>rnd (t1 + 60 - now)\<rfloor>"
    by (simp add: py_int_nonneg)
  from lo have "59 \<le> \<lfloor>rnd (t1 + 60 - now)\<rfloor>" by (simp add: le_floor_iff)
  moreover from hi have "\<lfloor>rnd (t1 + 60 - now)\<rfloor> \<le> 60" by (simp add: floor_le_iff)
  ultimately show "\<exists>r. get_remaining_ttl_rnd rnd s now key = Inr (Some r, s) \<and> 59 \<le> r \<and> r \<le> 60"
    using m live p by (simp add: get_remaining_ttl_rnd_eq)
qed

theorem get_remaining_ttl_truncated_witness:
  "get_remaining_ttl_rnd (\<lambda>x. x) [] 5 ''paris_metric'' = Inr (None, [])
   \<and> get_remaining_ttl_rnd (\<lambda>x. x)
        [(''paris_metric'', \<lparr>val = PStr ''sunny'', expires_at = 160, created_at = 100\<rparr>)]
        200 ''paris_metric''
       = Inr (Some 0,
              [(''paris_metric'', \<lparr>val = PStr ''sunny'', expires_at = 160, created_at = 100\<rparr>)])
   \<and> mono (\<lambda>x :: real. x)
   \<and> cache_set_rnd (\<lambda>x. x) init 100 100 ''paris_metric'' (PStr ''sunny'') 60
       = Inr [(''paris_metric'', \<lparr>val = PStr ''sunny'', expires_at = 160, created_at = 100\<rparr>)]
   \<and> (\<exists>r. get_remaining_ttl_rnd (\<lambda>x. x)
              [(''paris_metric'', \<lparr>val = PStr ''sunny'', expires_at = 160, created_at = 100\<rparr>)]
              (401 / 4) ''paris_metric''
            = Inr (Some r,
                [(''paris_metric'', \<lparr>val = PStr ''sunny'', expires_at = 160, created_at = 100\<rparr>)])
          \<and> 59 \<le> r \<and> r \<le> 60)"
proof -
  let ?s = "[(''paris_metric'', \<lparr>val = PStr ''sunny'', expires_at = 160, created_at = 100\<rparr>)]"
  have mo: "mono (\<lambda>x :: real. x)"
    by (simp add: mono_def)
  have c: "cache_set_rnd (\<lambda>x. x) init 100 100 ''paris_metric'' (PStr ''sunny'') 60 = Inr ?s"
    by (simp add: init_def cache_set_rnd_small)
  have t: "(100::real) \<le> 401 / 4 \<and> (401 / 4 :: real) \<le> 100 + 1"
    by simp
  have m: "map_of ?s ''paris_metric''
             = Some \<lparr>val = PStr ''sunny'', expires_at = 160, created_at = 100\<rparr>"
    by simp
  from get_remaining_ttl_truncated [of "[]" "''paris_metric''" "\<lambda>x. x" 5]
  have w1: "get_remaining_ttl_rnd (\<lambda>x. x) [] 5 ''paris_metric'' = Inr (None, [])"
    by simp
  from get_remaining_ttl_truncated [of ?s "''paris_metric''" "\<lambda>x. x" 200] m
  have w2: "get_remaining_ttl_rnd (\<lambda>x. x) ?s 200 ''paris_metric'' = Inr (Some 0, ?s)"
    by simp
  from get_remaining_ttl_truncated [of ?s "''paris_metric''" "\<lambda>x. x" "401 / 4"]
  have "mono (\<lambda>x :: real. x) \<and> (59::real) = 59 \<and> (60::real) = 60
          \<and> (100 + 60 :: real) = 100 + 60
          \<and> cache_set_rnd (\<lambda>x. x) init 100 100 ''paris_metric'' (PStr ''sunny'') 60 = Inr ?s
          \<and> (100::real) \<le> 401 / 4 \<and> (401 / 4 :: real) \<le> 100 + 1 \<longrightarrow>
        (\<exists>r. get_remaining_ttl_rnd (\<lambda>x. x) ?s (401 / 4) ''paris_metric'' = Inr (Some r, ?s)
               \<and> 59 \<le> r \<and> r \<le> 60)"
    by blast
  with mo c t
  have w3: "\<exists>r. get_remaining_ttl_rnd (\<lambda>x. x) ?s (401 / 4) ''paris_metric'' = Inr (Some r, ?s)
               \<and> 59 \<le> r \<and> r \<le> 60"
    by simp
  from w1 w2 mo c w3 show ?thesis by blast
qed

subsection \<open>get_stats\<close>

text \<open>
  C8. \<open>get_stats\<close> returns the store as it received it. In its snapshot \<open>total_entries\<close>
  is the number of stored entries, expired ones included, \<open>expired_entries\<close> the number of
  entries with \<open>now > expires_at\<close>, \<open>active_entries\<close> their difference, which is the
  number of entries with \<open>now \<le> expires_at\<close>, and \<open>cache_keys\<close> the keys of all stored
  entries in the dict's order.
\<close>

theorem get_stats_snapshot:
  "get_stats s now =
     Inr (\<lparr>total_entries = int (length s),
            active_entries = int (length s) - int (length (filter (\<lambda>(k, e). now > expires_at e) s)),
            expired_entries = int (length (filter (\<lambda>(k, e). now > expires_at e) s)),
            cache_keys = map fst s\<rparr>, s)
   \<and> int (length s) - int (length (filter (\<lambda>(k, e). now > expires_at e) s))
       = int (length (filter (\<lambda>(k, e). \<not> now > expires_at e) s))
   \<and> set (map fst s) = fst ` set s"
proof -
  have "length s = length (filter (\<lambda>(k, e). now > expires_at e) s)
                     + length (filter (\<lambda>(k, e). \<not> now > expires_at e) s)"
    by (rule length_expired_kept)
  then show ?thesis
    unfolding get_stats_def Let_def expired_count_eq by simp
qed

theorem get_stats_snapshot_witness:
  "get_stats
     [(''paris_metric'', \<lparr>val = PStr ''sunny'', expires_at = 10, created_at = 1\<rparr>),
      (''oslo_metric'', \<lparr>val = PStr ''snow'', expires_at = 50, created_at = 2\<rparr>)] 20
   = Inr (\<lparr>total_entries = 2, active_entries = 1, expired_entries = 1,
            cache_keys = [''paris_metric'', ''oslo_metric'']\<rparr>,
          [(''paris_metric'', \<lparr>val = PStr ''sunny'', expires_at = 10, created_at = 1\<rparr>),
           (''oslo_metric'', \<lparr>val = PStr ''snow'', expires_at = 50, created_at = 2\<rparr>)])"
  using get_stats_snapshot
    [of "[(''paris_metric'', \<lparr>val = PStr ''sunny'', expires_at = 10, created_at = 1\<rparr>),
          (''oslo_metric'', \<lparr>val = PStr ''snow'', expires_at = 50, created_at = 2\<rparr>)]" 20]
  by simp

subsection \<open>No exceptions\<close>

lemma has_key_eq:
  "has_key s now key =
     Inr (case map_of s key of
            None \<Rightarrow> (False, s)
          | Some e \<Rightarrow>
              if now > expires_at e then (False, AList.delete key s) else (val e \<noteq> PNone, s))"
  by (simp add: has_key_def get_eq split: option.splits)

text \<open>
  C9, as stated, fails for "every integer ttl": \<open>set\<close> adds the ttl to a float, and
  Python raises OverflowError when the int is too large to convert, as \<open>2^1024\<close> is.
\<close>

theorem set_huge_ttl_counterexample:
  "cache_set init 100 100 ''paris_metric'' (PStr ''sunny'') (2 ^ 1024) = Inl OverflowError"
  by (simp add: cache_set_def float_add_int_def)

text \<open>
  C9, amended. On a dict, for every key, value and clock reading, \<open>get\<close>, \<open>delete\<close>,
  \<open>clear\<close>, \<open>cleanup_expired\<close>, \<open>has_key\<close>, \<open>get_remaining_ttl\<close> and \<open>get_stats\<close>
  return a value and raise nothing, and so does \<open>set\<close> for every integer ttl of magnitude
  below \<open>2^1024 - 2^970\<close>, the ints a double can hold. After \<open>clear\<close> the store is the
  empty one: \<open>get_stats\<close> reports \<open>total_entries = 0\<close> and \<open>get\<close> returns None for every
  key.
\<close>

theorem cache_operations_return:
  assumes "distinct (map fst s)"
  shows "(\<exists>r. get s now key = Inr r)
         \<and> (\<bar>ttl\<bar> < 2 ^ 1024 - 2 ^ 970 \<longrightarrow> (\<exists>s'. cache_set s t1 t2 key v ttl = Inr s'))
         \<and> (\<exists>r. delete s key = Inr r)
         \<and> (\<exists>r. cleanup_expired s now = Inr r)
         \<and> (\<exists>r. has_key s now key = Inr r)
         \<and> (\<exists>r. get_remaining_ttl s now key = Inr r)
         \<and> (\<exists>r. get_stats s now = Inr r)
         \<and> clear s = Inr init
         \<and> (\<exists>st. get_stats init now = Inr (st, init) \<and> total_entries st = 0)
         \<and> get init now key = Inr (PNone, init)"
proof -
  have g: "\<exists>r. get s now key = Inr r"
    by (simp add: get_eq)
  have st: "\<bar>ttl\<bar> < 2 ^ 1024 - 2 ^ 970 \<longrightarrow> (\<exists>s'. cache_set s t1 t2 key v ttl = Inr s')"
    by (simp add: cache_set_small)
  have d: "\<exists>r. delete s key = Inr r"
    by (simp add: delete_eq)
  have c: "\<exists>r. cleanup_expired s now = Inr r"
    by (simp add: cleanup_expired_eq [OF assms])
  have h: "\<exists>r. has_key s now key = Inr r"
    by (simp add: has_key_eq)
  have t: "\<exists>r. get_remaining_ttl s now key = Inr r"
    by (simp add: get_remaining_ttl_eq)
  have gs: "\<exists>r. get_stats s now = Inr r"
    by (simp add: get_stats_def Let_def)
  have cl: "clear s = Inr init"
    by (simp add: clear_def init_def)
  have gs0: "\<exists>st. get_stats init now = Inr (st, init) \<and> total_entries st = 0"
    by (simp add: get_stats_def init_def)
  have g0: "get init now key = Inr (PNone, init)"
    by (simp add: get_eq init_def)
  from g st d c h t gs cl gs0 g0 show ?thesis by blast
qed

theorem cache_operations_return_witness:
  "distinct (map fst
     [(''paris_metric'', \<lparr>val = PStr ''sunny'', expires_at = 10, created_at = 1\<rparr>),
      (''oslo_metric'', \<lparr>val = PStr ''snow'', expires_at = 50, created_at = 2\<rparr>)])
   \<and> \<bar>900 :: int\<bar> < 2 ^ 1024 - 2 ^ 970
   \<and> (\<exists>s'. cache_set
              [(''paris_metric'', \<lparr>val = PStr ''sunny'', expires_at = 10, created_at = 1\<rparr>),
               (''oslo_metric'', \<lparr>val = PStr ''snow'', expires_at = 50, created_at = 2\<rparr>)]
              20 20 ''rome_metric'' (PStr ''fog'') 900 = Inr s')
   \<and> (\<exists>r. cleanup_expired
              [(''paris_metric'', \<lparr>val = PStr ''sunny'', expires_at = 10, created_at = 1\<rparr>),
               (''oslo_metric'', \<lparr>val = PStr ''snow'', expires_at = 50, created_at = 2\<rparr>)]
              20 = Inr r)"
proof -
  have d: "distinct (map fst
     [(''paris_metric'', \<lparr>val = PStr ''sunny'', expires_at = 10, created_at = 1\<rparr>),
      (''oslo_metric'', \<lparr>val = PStr ''snow'', expires_at = 50, created_at = 2\<rparr>)])"
    by simp
  have b: "\<bar>900 :: int\<bar> < 2 ^ 1024 - 2 ^ 970"
    by simp
  from cache_operations_return [OF d, of 20 "''rome_metric''" 900 20 20 "PStr ''fog''"] d b
  show ?thesis by blast
qed

subsection \<open>A stored None, and falsy payloads in the handler\<close>



end
